theory Spec2Isabelle
  imports Main "HOL-Library.Char_ord" "HOL-Library.List_Lexorder" "HOL-Library.Multiset"
begin

section \<open>SQLite introspection of Django 1.0.2 (db/backends/sqlite3/introspection.py)\<close>

text \<open>
  The module has two classes. \<open>FlexibleFieldLookupDict\<close> resolves a column type string
  to a Django field type; \<open>DatabaseIntrospection\<close> reads the schema of a connected
  database through a DB-API cursor. Strings are Python 2 byte strings, modelled as
  \<^typ>\<open>string\<close>; a raised exception is the \<open>Inl\<close> of a sum.
\<close>

subsection \<open>Python values and exceptions\<close>

datatype py_error = KeyError | IndexError | AttributeError | NotImplementedError

text \<open>
  The values a result row or a description tuple holds: SQLite's NULL arrives as
  \<open>None\<close>, an INTEGER as an int, a TEXT as a string; \<open>not x\<close> produces a bool.
\<close>

datatype py_value = PyNone | PyInt int | PyStr string | PyBool bool

text \<open>Truth value testing, as \<open>not x\<close> and \<open>if not x\<close> use it.\<close>

fun truthy :: "py_value \<Rightarrow> bool" where
  "truthy PyNone = False"
| "truthy (PyInt n) = (n \<noteq> 0)"
| "truthy (PyStr s) = (s \<noteq> [])"
| "truthy (PyBool b) = b"

text \<open>The comparison \<open>x != 0\<close>; the bools compare as the ints 0 and 1.\<close>

fun ne_zero :: "py_value \<Rightarrow> bool" where
  "ne_zero PyNone = True"
| "ne_zero (PyInt n) = (n \<noteq> 0)"
| "ne_zero (PyStr s) = True"
| "ne_zero (PyBool b) = b"

text \<open>Indexing \<open>xs[i]\<close> with a literal index \<open>i \<ge> 0\<close>: out of range raises.\<close>

definition item :: "'a list \<Rightarrow> nat \<Rightarrow> py_error + 'a" where
  "item xs i = (if i < length xs then Inr (xs ! i) else Inl IndexError)"

text \<open>Sequencing: an exception raised by the first step skips the rest.\<close>

definition and_then :: "py_error + 'a \<Rightarrow> ('a \<Rightarrow> py_error + 'b) \<Rightarrow> py_error + 'b" where
  "and_then r f = (case r of Inl e \<Rightarrow> Inl e | Inr x \<Rightarrow> f x)"

text \<open>A list comprehension whose element expression can raise: the first error ends it.\<close>

fun comprehension :: "('a \<Rightarrow> py_error + 'b) \<Rightarrow> 'a list \<Rightarrow> py_error + 'b list" where
  "comprehension f [] = Inr []"
| "comprehension f (x # xs) =
     (case f x of
        Inl e \<Rightarrow> Inl e
      | Inr y \<Rightarrow> (case comprehension f xs of Inl e \<Rightarrow> Inl e | Inr ys \<Rightarrow> Inr (y # ys)))"

subsection \<open>Strings: \<open>lower\<close>, the character classes, \<open>int\<close>\<close>

text \<open>
  \<open>str.lower()\<close> on a byte string in the C locale: the 26 ASCII capitals move by 32,
  every other byte stays.
\<close>

definition lower_char :: "char \<Rightarrow> char" where
  "lower_char c =
     (if CHR ''A'' \<le> c \<and> c \<le> CHR ''Z'' then char_of (of_char c + (32::nat)) else c)"

definition lower :: "string \<Rightarrow> string" where
  "lower s = map lower_char s"

text \<open>
  The class \<open>\s\<close> of an 8-bit pattern without flags: space, tab, newline, vertical
  tab, form feed, carriage return. The class \<open>\d\<close>: the ten ASCII digits.
\<close>

definition is_space :: "char \<Rightarrow> bool" where
  "is_space c \<longleftrightarrow> c \<in> set [CHR '' '', CHR 0x09, CHR 0x0A, CHR 0x0B, CHR 0x0C, CHR 0x0D]"

definition is_digit :: "char \<Rightarrow> bool" where
  "is_digit c \<longleftrightarrow> c \<in> set ''0123456789''"

text \<open>\<open>int(s)\<close> on a string of digits, as the group \<open>(\d+)\<close> delivers it.\<close>

definition digit_value :: "char \<Rightarrow> int" where
  "digit_value c = int (of_char c) - 48"

definition int_of_digits :: "string \<Rightarrow> int" where
  "int_of_digits ds = foldl (\<lambda>acc d. 10 * acc + digit_value d) 0 ds"

subsection \<open>The pattern of \<open>__getitem__\<close>\<close>

text \<open>
  \<^verbatim>\<open>re.search(r'^\s*(?:var)?char\s*\(\s*(\d+)\s*\)\s*$', key)\<close>, read left to right.
  Every piece of the pattern is followed by a character that the piece itself cannot
  match, so the greedy choice is the only one and the matcher never has to back up
  (\<open>search_complete\<close> and \<open>search_sound\<close> below). The result is group 1 of the match, \<open>None\<close>
  when there is no match. \<open>$\<close> also matches before a final newline, which the
  \<open>\s*\<close> in front of it takes anyway.
\<close>

definition skip_prefix :: "string \<Rightarrow> string \<Rightarrow> string option" where
  "skip_prefix p s = (if take (length p) s = p then Some (drop (length p) s) else None)"

definition search_char_pattern :: "string \<Rightarrow> string option" where
  "search_char_pattern key =
     (let s1 = dropWhile is_space key;
          s2 = (case skip_prefix ''var'' s1 of Some r \<Rightarrow> r | None \<Rightarrow> s1)
      in case skip_prefix ''char'' s2 of
           None \<Rightarrow> None
         | Some s3 \<Rightarrow>
             (case skip_prefix ''('' (dropWhile is_space s3) of
                None \<Rightarrow> None
              | Some s4 \<Rightarrow>
                  (let s5 = dropWhile is_space s4;
                       group1 = takeWhile is_digit s5;
                       s6 = dropWhile is_digit s5
                   in if group1 = [] then None
                      else (case skip_prefix '')'' (dropWhile is_space s6) of
                              None \<Rightarrow> None
                            | Some s7 \<Rightarrow>
                                if dropWhile is_space s7 = [] then Some group1 else None))))"

text \<open>
  The pattern as a set of strings, with its group: the reading of the regular
  expression that the matcher is compared with.
\<close>

definition char_pattern :: "string \<Rightarrow> string \<Rightarrow> bool" where
  "char_pattern key group1 \<longleftrightarrow>
     (\<exists>w1 v w2 w3 w4 w5.
        key = w1 @ v @ ''char'' @ w2 @ ''('' @ w3 @ group1 @ w4 @ '')'' @ w5
        \<and> (v = [] \<or> v = ''var'')
        \<and> list_all is_space w1 \<and> list_all is_space w2 \<and> list_all is_space w3
        \<and> list_all is_space w4 \<and> list_all is_space w5
        \<and> group1 \<noteq> [] \<and> list_all is_digit group1)"

subsection \<open>\<open>FlexibleFieldLookupDict\<close>\<close>

definition base_data_types_reverse :: "string \<rightharpoonup> string" where
  "base_data_types_reverse = map_of
     [(''bool'', ''BooleanField''),
      (''boolean'', ''BooleanField''),
      (''smallint'', ''SmallIntegerField''),
      (''smallint unsigned'', ''PositiveSmallIntegerField''),
      (''smallinteger'', ''SmallIntegerField''),
      (''int'', ''IntegerField''),
      (''integer'', ''IntegerField''),
      (''integer unsigned'', ''PositiveIntegerField''),
      (''decimal'', ''DecimalField''),
      (''real'', ''FloatField''),
      (''text'', ''TextField''),
      (''char'', ''CharField''),
      (''date'', ''DateField''),
      (''datetime'', ''DateTimeField''),
      (''time'', ''TimeField'')]"

text \<open>
  What \<open>__getitem__\<close> returns: a field type name, or the pair of a name and a
  dictionary of keyword arguments (the dictionary literal as the list of its items).
\<close>

datatype field_type = FieldName string | FieldWithArgs string "(string \<times> int) list"

definition getitem :: "string \<Rightarrow> py_error + field_type" where
  "getitem key0 =
     (let key = lower key0
      in case base_data_types_reverse key of
           Some v \<Rightarrow> Inr (FieldName v)
         | None \<Rightarrow>
             (case search_char_pattern key of
                Some group1 \<Rightarrow>
                  Inr (FieldWithArgs ''CharField'' [(''max_length'', int_of_digits group1)])
              | None \<Rightarrow> Inl KeyError))"

subsection \<open>The database and its cursor\<close>

text \<open>
  The connected database, as far as the statements of this module read it: the rows
  \<open>(type, name)\<close> of \<open>sqlite_master\<close>, and the rows SQLite answers to the three
  pragmas, each keyed by the argument text of the statement. The columns are those the
  comments of the source list: \<open>cid, name, type, notnull, dflt_value, pk\<close> for
  \<open>table_info\<close>, \<open>seq, name, unique\<close> for \<open>index_list\<close> and
  \<open>seqno, cid, name\<close> for \<open>index_info\<close>.
\<close>

type_synonym table_info_row = "int \<times> string \<times> string \<times> int \<times> string option \<times> int"
type_synonym index_list_row = "int \<times> string \<times> int"
type_synonym index_info_row = "int \<times> int \<times> string"

record database =
  sqlite_master :: "(string \<times> string) list"
  pragma_table_info :: "string \<Rightarrow> table_info_row list"
  pragma_index_list :: "string \<Rightarrow> index_list_row list"
  pragma_index_info :: "string \<Rightarrow> index_info_row list"

text \<open>
  The statements the module executes. \<open>SelectTables\<close> is
  \<^verbatim>\<open>SELECT name FROM sqlite_master WHERE type='table' AND NOT name='sqlite_sequence' ORDER BY name\<close>;
  a pragma carries the text put in its parentheses.
\<close>

datatype statement =
    SelectTables
  | PragmaTableInfo string
  | PragmaIndexList string
  | PragmaIndexInfo string

text \<open>
  The rows the engine answers, each row a tuple of Python values (a list here).
  \<open>ORDER BY name\<close> compares TEXT with the BINARY collation, byte by byte: the
  lexicographic order of \<^typ>\<open>string\<close>.
\<close>

fun run :: "database \<Rightarrow> statement \<Rightarrow> py_value list list" where
  "run d SelectTables =
     map (\<lambda>n. [PyStr n])
       (sort (map snd
          (filter (\<lambda>(ty, n). ty = ''table'' \<and> \<not> n = ''sqlite_sequence'') (sqlite_master d))))"
| "run d (PragmaTableInfo a) =
     map (\<lambda>(cid, n, ty, notnull, dflt, pk).
            [PyInt cid, PyStr n, PyStr ty, PyInt notnull,
             (case dflt of None \<Rightarrow> PyNone | Some v \<Rightarrow> PyStr v), PyInt pk])
       (pragma_table_info d a)"
| "run d (PragmaIndexList a) =
     map (\<lambda>(seq, n, uniq). [PyInt seq, PyStr n, PyInt uniq]) (pragma_index_list d a)"
| "run d (PragmaIndexInfo a) =
     map (\<lambda>(seqno, cid, n). [PyInt seqno, PyInt cid, PyStr n]) (pragma_index_info d a)"

text \<open>
  A cursor: its database, the statements executed through it so far, and the rows of
  the last statement that are not fetched yet.
\<close>

record cursor =
  cur_db :: database
  cur_executed :: "statement list"
  cur_rows :: "py_value list list"

definition execute :: "statement \<Rightarrow> cursor \<Rightarrow> cursor" where
  "execute st c = c\<lparr>cur_executed := cur_executed c @ [st], cur_rows := run (cur_db c) st\<rparr>"

definition fetchall :: "cursor \<Rightarrow> py_value list list \<times> cursor" where
  "fetchall c = (cur_rows c, c\<lparr>cur_rows := []\<rparr>)"

subsection \<open>\<open>DatabaseIntrospection\<close>\<close>

text \<open>
  \<open>self.connection.ops.quote_name\<close> is not part of this module: every operation
  that uses it takes it as the parameter \<open>quote_name\<close>.
\<close>

definition get_table_list :: "cursor \<Rightarrow> (py_error + py_value list) \<times> cursor" where
  "get_table_list cursor =
     (let (rows, cursor') = fetchall (execute SelectTables cursor)
      in (comprehension (\<lambda>row. item row 0) rows, cursor'))"

text \<open>The dictionary \<open>_table_info\<close> builds for a column.\<close>

record field_info =
  info_name :: py_value
  info_type :: py_value
  info_null_ok :: bool
  info_pk :: py_value

definition table_info ::
  "(string \<Rightarrow> string) \<Rightarrow> cursor \<Rightarrow> string \<Rightarrow> (py_error + field_info list) \<times> cursor" where
  "table_info quote_name cursor name0 =
     (let (rows, cursor') = fetchall (execute (PragmaTableInfo (quote_name name0)) cursor)
      in (comprehension
            (\<lambda>field.
               and_then (item field 1) (\<lambda>n.
               and_then (item field 2) (\<lambda>ty.
               and_then (item field 3) (\<lambda>notnull.
               and_then (item field 5) (\<lambda>p.
                 Inr \<lparr>info_name = n, info_type = ty,
                      info_null_ok = (\<not> truthy notnull), info_pk = p\<rparr>)))))
            rows,
          cursor'))"

text \<open>A description tuple is the list of its seven items.\<close>

definition get_table_description ::
  "(string \<Rightarrow> string) \<Rightarrow> cursor \<Rightarrow> string \<Rightarrow> (py_error + py_value list list) \<times> cursor" where
  "get_table_description quote_name cursor table_name =
     (case table_info quote_name cursor table_name of
        (Inl e, cursor') \<Rightarrow> (Inl e, cursor')
      | (Inr infos, cursor') \<Rightarrow>
          (Inr (map (\<lambda>info. [info_name info, info_type info, PyNone, PyNone, PyNone, PyNone,
                              PyBool (info_null_ok info)]) infos),
           cursor'))"

definition get_relations :: "cursor \<Rightarrow> string \<Rightarrow> (py_error + 'a) \<times> cursor" where
  "get_relations cursor table_name = (Inl NotImplementedError, cursor)"

text \<open>The value \<open>get_indexes\<close> keeps for a column.\<close>

record infodict =
  primary_key :: bool
  unique :: bool

text \<open>
  The loop of \<open>get_indexes\<close> over the pairs \<open>(index, unique)\<close>. \<open>quote_name\<close>
  works on a string; the engine names every index by one, and any other value has no
  string methods. \<open>indexes[name]\<close> raises \<open>KeyError\<close> for a name that is not a key.
\<close>

fun unique_loop ::
  "(string \<Rightarrow> string) \<Rightarrow> (py_value \<times> py_value) list \<Rightarrow> (py_value \<rightharpoonup> infodict) \<Rightarrow> cursor
     \<Rightarrow> (py_error + (py_value \<rightharpoonup> infodict)) \<times> cursor" where
  "unique_loop quote_name [] indexes cursor = (Inr indexes, cursor)"
| "unique_loop quote_name ((index, unique_flag) # rest) indexes cursor =
     (if \<not> truthy unique_flag then unique_loop quote_name rest indexes cursor
      else (case index of
              PyStr index_name \<Rightarrow>
                (let (info, cursor') =
                       fetchall (execute (PragmaIndexInfo (quote_name index_name)) cursor)
                 in if length info \<noteq> 1 then unique_loop quote_name rest indexes cursor'
                    else (case and_then (item info 0) (\<lambda>row. item row 2) of
                            Inl e \<Rightarrow> (Inl e, cursor')
                          | Inr name1 \<Rightarrow>
                              (case indexes name1 of
                                 None \<Rightarrow> (Inl KeyError, cursor')
                               | Some d \<Rightarrow>
                                   unique_loop quote_name rest
                                     (indexes(name1 \<mapsto> d\<lparr>unique := True\<rparr>)) cursor')))
            | _ \<Rightarrow> (Inl AttributeError, cursor)))"

definition get_indexes ::
  "(string \<Rightarrow> string) \<Rightarrow> cursor \<Rightarrow> string
     \<Rightarrow> (py_error + (py_value \<rightharpoonup> infodict)) \<times> cursor" where
  "get_indexes quote_name cursor table_name =
     (case table_info quote_name cursor table_name of
        (Inl e, cursor1) \<Rightarrow> (Inl e, cursor1)
      | (Inr infos, cursor1) \<Rightarrow>
          (let indexes =
                 foldl (\<lambda>m info.
                          m(info_name info \<mapsto>
                              \<lparr>primary_key = ne_zero (info_pk info), unique = False\<rparr>))
                   Map.empty infos;
               (rows, cursor2) =
                 fetchall (execute (PragmaIndexList (quote_name table_name)) cursor1)
           in case comprehension
                     (\<lambda>field. and_then (item field 1) (\<lambda>i.
                               and_then (item field 2) (\<lambda>u. Inr (i, u)))) rows of
                Inl e \<Rightarrow> (Inl e, cursor2)
              | Inr pairs \<Rightarrow> unique_loop quote_name pairs indexes cursor2))"

subsection \<open>Notions the properties are stated with\<close>

text \<open>
  Two characters are the same letter when they are equal or one is the capital of the
  other; two strings differ only in letter case when they agree letter by letter.
\<close>

definition same_letter :: "char \<Rightarrow> char \<Rightarrow> bool" where
  "same_letter a b \<longleftrightarrow>
     a = b
     \<or> (a, b) \<in> set (zip ''abcdefghijklmnopqrstuvwxyz'' ''ABCDEFGHIJKLMNOPQRSTUVWXYZ'')
     \<or> (b, a) \<in> set (zip ''abcdefghijklmnopqrstuvwxyz'' ''ABCDEFGHIJKLMNOPQRSTUVWXYZ'')"

definition same_ignoring_case :: "string \<Rightarrow> string \<Rightarrow> bool" where
  "same_ignoring_case s t \<longleftrightarrow> list_all2 same_letter s t"

text \<open>The decimal numeral of a natural number, without leading zeros.\<close>

fun decimal :: "nat \<Rightarrow> string" where
  "decimal n =
     (if n < 10 then [''0123456789'' ! n]
      else decimal (n div 10) @ [''0123456789'' ! (n mod 10)])"

declare decimal.simps [simp del]

text \<open>
  Of the table whose pragma argument is \<open>a\<close>: the names of its columns in catalog
  order, the \<open>pk\<close> value the catalog gives for a column name (of the last row, should a
  name occur twice), and the columns that a unique index on exactly one column covers.
\<close>

definition column_names :: "database \<Rightarrow> string \<Rightarrow> string list" where
  "column_names d a = map (\<lambda>(cid, n, ty, notnull, dflt, pk). n) (pragma_table_info d a)"

definition column_pk :: "database \<Rightarrow> string \<Rightarrow> string \<rightharpoonup> int" where
  "column_pk d a =
     map_of (rev (map (\<lambda>(cid, n, ty, notnull, dflt, pk). (n, pk)) (pragma_table_info d a)))"

definition covered_columns ::
  "database \<Rightarrow> (string \<Rightarrow> string) \<Rightarrow> index_list_row list \<Rightarrow> string list" where
  "covered_columns d quote_name idx =
     concat (map (\<lambda>(seq, ix, uniq).
                    if uniq = 0 then []
                    else (case pragma_index_info d (quote_name ix) of
                            [(seqno, cid, n)] \<Rightarrow> [n]
                          | _ \<Rightarrow> []))
              idx)"

definition single_unique_columns :: "database \<Rightarrow> (string \<Rightarrow> string) \<Rightarrow> string \<Rightarrow> string list" where
  "single_unique_columns d quote_name a = covered_columns d quote_name (pragma_index_list d a)"

text \<open>The dictionary after the loop has set \<open>unique\<close> for the keys in \<open>U\<close>.\<close>

definition mark_unique :: "py_value set \<Rightarrow> (py_value \<rightharpoonup> infodict) \<Rightarrow> (py_value \<rightharpoonup> infodict)" where
  "mark_unique U m = (\<lambda>k. map_option (\<lambda>e. if k \<in> U then e\<lparr>unique := True\<rparr> else e) (m k))"

text \<open>The positions of a tuple that hold \<open>None\<close>.\<close>

definition none_positions :: "py_value list \<Rightarrow> nat list" where
  "none_positions t = filter (\<lambda>i. t ! i = PyNone) [0..<length t]"

text \<open>The dictionary \<open>get_indexes\<close> holds before its loop.\<close>

definition initial_indexes :: "database \<Rightarrow> string \<Rightarrow> (py_value \<rightharpoonup> infodict)" where
  "initial_indexes d a =
     (\<lambda>k. case k of
             PyStr n \<Rightarrow> map_option (\<lambda>p. \<lparr>primary_key = (p \<noteq> 0), unique = False\<rparr>) (column_pk d a n)
           | _ \<Rightarrow> None)"

text \<open>The keys of \<open>base_data_types_reverse\<close>.\<close>

definition table_keys :: "string list" where
  "table_keys =
     [''bool'', ''boolean'', ''smallint'', ''smallint unsigned'', ''smallinteger'', ''int'',
      ''integer'', ''integer unsigned'', ''decimal'', ''real'', ''text'', ''char'', ''date'',
      ''datetime'', ''time'']"

subsection \<open>An example database\<close>

text \<open>
  Two tables: \<open>person\<close> with a unique index on its column \<open>email\<close> and a plain index
  on \<open>nick\<close>, and \<open>pair\<close> whose only index is a unique index on both of its columns.
  \<open>example_quote_name\<close> quotes a name with square brackets, which SQLite accepts.
\<close>

definition example_quote_name :: "string \<Rightarrow> string" where
  "example_quote_name n = ''['' @ n @ '']''"

definition example_db :: database where
  "example_db =
     \<lparr>sqlite_master =
        [(''table'', ''person''), (''index'', ''ix_email''), (''table'', ''sqlite_sequence''),
         (''index'', ''ix_nick''), (''table'', ''pair''), (''index'', ''ix_ab'')],
      pragma_table_info =
        (\<lambda>a. if a = ''[person]''
              then [(0, ''id'', ''integer'', 1, None, 1),
                    (1, ''email'', ''varchar(30)'', 1, None, 0),
                    (2, ''nick'', ''text'', 0, Some ''NULL'', 0)]
              else if a = ''[pair]''
              then [(0, ''a'', ''int'', 1, None, 0), (1, ''b'', ''int'', 1, None, 0)]
              else []),
      pragma_index_list =
        (\<lambda>a. if a = ''[person]'' then [(0, ''ix_email'', 1), (1, ''ix_nick'', 0)]
              else if a = ''[pair]'' then [(0, ''ix_ab'', 1)]
              else []),
      pragma_index_info =
        (\<lambda>a. if a = ''[ix_email]'' then [(0, 1, ''email'')]
              else if a = ''[ix_nick]'' then [(0, 2, ''nick'')]
              else if a = ''[ix_ab]'' then [(0, 0, ''a''), (1, 1, ''b'')]
              else [])\<rparr>"

definition example_cursor :: cursor where
  "example_cursor = \<lparr>cur_db = example_db, cur_executed = [], cur_rows = []\<rparr>"

section \<open>Properties\<close>

subsection \<open>The matcher and the pattern\<close>

lemma skip_prefix_Some: "skip_prefix p s = Some r \<longleftrightarrow> s = p @ r"
  unfolding skip_prefix_def
  by (metis append_eq_conv_conj append_take_drop_id option.distinct(1) option.inject)

lemma skip_prefix_append [simp]: "skip_prefix p (p @ r) = Some r"
  by (simp add: skip_prefix_Some)

lemma drop_spaces: "list_all is_space w \<Longrightarrow> dropWhile is_space (w @ r) = dropWhile is_space r"
  by (simp add: list_all_iff dropWhile_append2)

lemma drop_digits: "list_all is_digit w \<Longrightarrow> dropWhile is_digit (w @ r) = dropWhile is_digit r"
  by (simp add: list_all_iff dropWhile_append2)

lemma take_digits: "list_all is_digit w \<Longrightarrow> takeWhile is_digit (w @ r) = w @ takeWhile is_digit r"
  by (simp add: list_all_iff takeWhile_append2)

lemma space_not_digit: "is_space c \<Longrightarrow> \<not> is_digit c"
  by (auto simp: is_space_def is_digit_def)

lemma not_space_simps [simp]:
  "\<not> is_space (CHR ''v'')" "\<not> is_space (CHR ''c'')" "\<not> is_space (CHR ''('')" "\<not> is_space (CHR '')'')"
  "\<not> is_digit (CHR '')'')"
  by (simp_all add: is_space_def is_digit_def)

lemma spaces_then_paren_digits:
  assumes "list_all is_space w"
  shows "takeWhile is_digit (w @ CHR '')'' # r) = []" "dropWhile is_digit (w @ CHR '')'' # r) = w @ CHR '')'' # r"
  using assms by (cases w; simp add: space_not_digit)+

lemma search_complete:
  assumes "char_pattern key ds"
  shows "search_char_pattern key = Some ds"
proof -
  from assms obtain w1 v w2 w3 w4 w5 where
    key: "key = w1 @ v @ ''char'' @ w2 @ ''('' @ w3 @ ds @ w4 @ '')'' @ w5"
    and v: "v = [] \<or> v = ''var''"
    and w: "list_all is_space w1" "list_all is_space w2" "list_all is_space w3"
           "list_all is_space w4" "list_all is_space w5"
    and ds: "ds \<noteq> []" "list_all is_digit ds"
    unfolding char_pattern_def by blast
  define r1 where "r1 = w2 @ ''('' @ w3 @ ds @ w4 @ '')'' @ w5"
  have s1: "dropWhile is_space key = v @ ''char'' @ r1"
    using v w(1) unfolding key r1_def by (auto simp: drop_spaces)
  have s2: "(case skip_prefix ''var'' (v @ ''char'' @ r1) of Some r \<Rightarrow> r | None \<Rightarrow> v @ ''char'' @ r1) = ''char'' @ r1"
    using v by (auto simp: skip_prefix_def)
  have s3: "skip_prefix ''char'' (''char'' @ r1) = Some r1" by (rule skip_prefix_append)
  have s4: "skip_prefix ''('' (dropWhile is_space r1) = Some (w3 @ ds @ w4 @ '')'' @ w5)"
    using w(2) unfolding r1_def by (simp add: drop_spaces skip_prefix_def)
  obtain d ds' where dsc: "ds = d # ds'" "is_digit d" using ds by (cases ds) auto
  then have nsp: "\<not> is_space d" using space_not_digit by blast
  have s5: "dropWhile is_space (w3 @ ds @ w4 @ '')'' @ w5) = ds @ w4 @ '')'' @ w5"
    using w(3) nsp dsc by (simp add: drop_spaces)
  have g: "takeWhile is_digit (ds @ w4 @ '')'' @ w5) = ds"
    using ds(2) w(4) by (simp add: take_digits spaces_then_paren_digits)
  have s6: "dropWhile is_digit (ds @ w4 @ '')'' @ w5) = w4 @ '')'' @ w5"
    using ds(2) w(4) by (simp add: drop_digits spaces_then_paren_digits)
  have s7: "skip_prefix '')'' (dropWhile is_space (w4 @ '')'' @ w5)) = Some w5"
    using w(4) by (simp add: drop_spaces skip_prefix_def)
  have s8: "dropWhile is_space w5 = []"
    using w(5) by (simp add: list_all_iff)
  show ?thesis
    unfolding search_char_pattern_def Let_def s1 s2 s3 option.case s4 s5 g s6 s7 s8
    using ds(1) by simp
qed

lemma spaces_takeWhile: "list_all is_space (takeWhile is_space s)"
  by (auto simp: list_all_iff dest: set_takeWhileD)

lemma search_sound:
  assumes "search_char_pattern key = Some ds"
  shows "char_pattern key ds"
proof -
  define s1 where "s1 = dropWhile is_space key"
  define s2 where "s2 = (case skip_prefix ''var'' s1 of Some r \<Rightarrow> r | None \<Rightarrow> s1)"
  from assms obtain s3 s4 s7 where
    a3: "skip_prefix ''char'' s2 = Some s3"
    and a4: "skip_prefix ''('' (dropWhile is_space s3) = Some s4"
    and g: "ds = takeWhile is_digit (dropWhile is_space s4)" "ds \<noteq> []"
    and a7: "skip_prefix '')'' (dropWhile is_space (dropWhile is_digit (dropWhile is_space s4))) = Some s7"
    and a8: "dropWhile is_space s7 = []"
    unfolding search_char_pattern_def Let_def s1_def s2_def
    by (auto split: option.splits if_splits)
  define v where "v = (case skip_prefix ''var'' s1 of Some r \<Rightarrow> ''var'' | None \<Rightarrow> [])"
  have v: "v = [] \<or> v = ''var''" by (simp add: v_def split: option.splits)
  have e1: "key = takeWhile is_space key @ s1" by (simp add: s1_def)
  have e2: "s1 = v @ s2"
  proof (cases "skip_prefix ''var'' s1")
    case None
    then show ?thesis by (simp add: v_def s2_def)
  next
    case (Some r)
    then have "s1 = ''var'' @ r" by (simp only: skip_prefix_Some)
    with Some show ?thesis by (simp add: v_def s2_def)
  qed
  have e3: "s2 = ''char'' @ s3" using a3 by (simp add: skip_prefix_Some)
  have e4: "s3 = takeWhile is_space s3 @ ''('' @ s4"
    using a4 by (metis skip_prefix_Some takeWhile_dropWhile_id)
  define s5 where "s5 = dropWhile is_space s4"
  define s6 where "s6 = dropWhile is_digit s5"
  have e5: "s4 = takeWhile is_space s4 @ ds @ s6"
    by (simp add: g s5_def s6_def)
  have e6: "s6 = takeWhile is_space s6 @ '')'' @ s7"
    using a7 unfolding s5_def[symmetric] s6_def[symmetric]
    by (metis skip_prefix_Some takeWhile_dropWhile_id)
  have w5: "list_all is_space s7" using a8 by (simp add: list_all_iff)
  have dg: "list_all is_digit ds" by (auto simp: g list_all_iff dest: set_takeWhileD)
  have "key = takeWhile is_space key @ v @ ''char'' @ takeWhile is_space s3 @ ''('' @
      takeWhile is_space s4 @ ds @ takeWhile is_space s6 @ '')'' @ s7"
    using e1 e2 e3 e4 e5 e6 by (metis append_assoc)
  then show ?thesis
    unfolding char_pattern_def
    using v w5 dg g(2) spaces_takeWhile by blast
qed

subsection \<open>Letter case\<close>

lemma lower_alphabet:
  "list_all2 (\<lambda>a b. lower_char a = a \<and> lower_char b = a)
     ''abcdefghijklmnopqrstuvwxyz'' ''ABCDEFGHIJKLMNOPQRSTUVWXYZ''"
  by code_simp

lemma lower_upper:
  assumes "(a, b) \<in> set (zip ''abcdefghijklmnopqrstuvwxyz'' ''ABCDEFGHIJKLMNOPQRSTUVWXYZ'')"
  shows "lower_char a = a \<and> lower_char b = a"
  using lower_alphabet assms unfolding list_all2_iff by blast

lemma same_letter_lower: "same_letter a b \<Longrightarrow> lower_char a = lower_char b"
  unfolding same_letter_def using lower_upper by metis

lemma same_ignoring_case_lower: "same_ignoring_case s t \<Longrightarrow> lower s = lower t"
  unfolding same_ignoring_case_def lower_def
  by (induction s t rule: list_all2_induct) (auto dest: same_letter_lower)

lemma lower_fixed: "list_all (\<lambda>c. lower_char c = c) s \<Longrightarrow> lower s = s"
  unfolding lower_def by (induction s) auto

lemma lower_space: "is_space c \<Longrightarrow> lower_char c = c"
  by (auto simp: is_space_def lower_char_def)


lemma lower_spaces: "list_all is_space w \<Longrightarrow> lower w = w"
  by (rule lower_fixed) (auto simp: list_all_iff lower_space)


lemma lower_append: "lower (s @ t) = lower s @ lower t"
  by (simp add: lower_def)

subsection \<open>Decimal digits\<close>

text \<open>\<open>int_of_digits\<close> reads a decimal numeral back as the number it denotes.\<close>

lemma int_of_digits_snoc: "int_of_digits (ds @ [d]) = 10 * int_of_digits ds + digit_value d"
  by (simp add: int_of_digits_def)

lemma digit_nth:
  assumes "k < 10"
  shows "digit_value (''0123456789'' ! k) = int k \<and> is_digit (''0123456789'' ! k)"
proof -
  from assms have "k \<in> {0, 1, 2, 3, 4, 5, 6, 7, 8, 9}" by auto
  then show ?thesis by (auto simp: digit_value_def is_digit_def)
qed

lemma int_of_digits_decimal: "int_of_digits (decimal n) = int n"
proof (induction n rule: decimal.induct)
  case (1 n)
  show ?case
  proof (cases "n < 10")
    case True
    then show ?thesis
      by (subst decimal.simps) (simp add: int_of_digits_def digit_nth)
  next
    case False
    have "int_of_digits (decimal n) =
        10 * int_of_digits (decimal (n div 10)) + digit_value (''0123456789'' ! (n mod 10))"
      using False by (subst decimal.simps) (simp add: int_of_digits_snoc)
    also have "\<dots> = 10 * int (n div 10) + int (n mod 10)"
      using False by (simp add: "1.IH" digit_nth)
    also have "\<dots> = int n" by presburger
    finally show ?thesis .
  qed
qed

lemma decimal_digits: "decimal n \<noteq> [] \<and> list_all is_digit (decimal n)"
proof (induction n rule: decimal.induct)
  case (1 n)
  show ?case
  proof (cases "n < 10")
    case True
    then show ?thesis by (subst (1 2) decimal.simps) (simp add: digit_nth)
  next
    case False
    then show ?thesis using "1.IH" by (subst (1 2) decimal.simps) (simp add: digit_nth)
  qed
qed

subsection \<open>\<open>__getitem__\<close>\<close>

lemma table_key_cases:
  assumes "base_data_types_reverse k = Some v"
  shows "k \<in> set table_keys"
proof -
  from assms have "(k, v) \<in> set
     [(''bool'', ''BooleanField''),
      (''boolean'', ''BooleanField''),
      (''smallint'', ''SmallIntegerField''),
      (''smallint unsigned'', ''PositiveSmallIntegerField''),
      (''smallinteger'', ''SmallIntegerField''),
      (''int'', ''IntegerField''),
      (''integer'', ''IntegerField''),
      (''integer unsigned'', ''PositiveIntegerField''),
      (''decimal'', ''DecimalField''),
      (''real'', ''FloatField''),
      (''text'', ''TextField''),
      (''char'', ''CharField''),
      (''date'', ''DateField''),
      (''datetime'', ''DateTimeField''),
      (''time'', ''TimeField'')]"
    unfolding base_data_types_reverse_def by (rule map_of_SomeD)
  then show ?thesis unfolding table_keys_def by auto
qed

lemma table_key_lower: "base_data_types_reverse k = Some v \<Longrightarrow> lower k = k"
  by (drule table_key_cases) (auto simp: table_keys_def lower_def lower_char_def)

lemma table_key_shape:
  assumes "base_data_types_reverse k = Some v"
  shows "k \<noteq> [] \<and> \<not> is_space (hd k) \<and> \<not> is_space (last k) \<and> CHR ''('' \<notin> set k"
  using table_key_cases[OF assms]
  by (auto simp: table_keys_def is_space_def)

lemma pattern_has_paren: "char_pattern k ds \<Longrightarrow> CHR ''('' \<in> set k"
  unfolding char_pattern_def by auto






text \<open>The same with whitespace, mixed case and a leading zero.\<close>

lemma getitem_char_pattern_example:
  "getitem [CHR 0x09, CHR ''V'', CHR ''a'', CHR ''r'', CHR ''C'', CHR ''H'', CHR ''A'', CHR ''R'', CHR '' '',
            CHR ''('', CHR 0x0A, CHR ''0'', CHR ''2'', CHR ''5'', CHR ''5'', CHR '' '', CHR '')'', CHR 0x0D]
     = Inr (FieldWithArgs ''CharField'' [(''max_length'', 255)])"
  by code_simp

text \<open>
  C2. A key of \<open>base_data_types_reverse\<close>, written in any letter case, resolves to
  the field type name the table gives for the key.
\<close>

theorem getitem_table_key:
  assumes "base_data_types_reverse k = Some v" and "same_ignoring_case s k"
  shows "getitem s = Inr (FieldName v)"
proof -
  have "lower s = k"
    using assms by (simp add: same_ignoring_case_lower table_key_lower)
  then show ?thesis
    unfolding getitem_def Let_def using assms(1) by simp
qed

theorem getitem_table_key_witness:
  "base_data_types_reverse ''integer unsigned'' = Some ''PositiveIntegerField''
     \<and> same_ignoring_case ''Integer UNSIGNED'' ''integer unsigned''
     \<and> getitem ''Integer UNSIGNED'' = Inr (FieldName ''PositiveIntegerField'')"
proof -
  have h1: "base_data_types_reverse ''integer unsigned'' = Some ''PositiveIntegerField''"
    by (simp add: base_data_types_reverse_def)
  have h2: "same_ignoring_case ''Integer UNSIGNED'' ''integer unsigned''" by code_simp
  show ?thesis using h1 h2 getitem_table_key[OF h1 h2] by simp
qed

text \<open>
  C3. A string whose lower-case form is no key of the table and does not match the
  pattern makes \<open>__getitem__\<close> raise \<open>KeyError\<close>.
\<close>

theorem getitem_unknown_type:
  assumes "lower s \<notin> dom base_data_types_reverse"
    and "\<not> (\<exists>group1. char_pattern (lower s) group1)"
  shows "getitem s = Inl KeyError"
proof -
  have "base_data_types_reverse (lower s) = None" using assms(1) by auto
  moreover have "search_char_pattern (lower s) = None"
    using assms(2) search_sound by (cases "search_char_pattern (lower s)") auto
  ultimately show ?thesis by (simp add: getitem_def)
qed

theorem getitem_unknown_type_witness:
  "lower ''blob'' \<notin> dom base_data_types_reverse
     \<and> \<not> (\<exists>group1. char_pattern (lower ''blob'') group1)
     \<and> getitem ''blob'' = Inl KeyError"
proof -
  have low: "lower ''blob'' = ''blob''" by (simp add: lower_def lower_char_def)
  have h1: "lower ''blob'' \<notin> dom base_data_types_reverse"
    unfolding low by (simp add: base_data_types_reverse_def dom_def)
  have "search_char_pattern ''blob'' = None" by code_simp
  then have h2: "\<not> (\<exists>group1. char_pattern (lower ''blob'') group1)"
    unfolding low using search_complete by fastforce
  show ?thesis using h1 h2 getitem_unknown_type[OF h1 h2] by simp
qed

text \<open>
  C10. The pattern tolerates whitespace, the table does not: a key of the table with
  whitespace added in front of it or after it (at least one character in all) raises
  \<open>KeyError\<close>, while the key itself resolves. This holds for the key \<open>char\<close>
  too: without parentheses the padded key does not match the pattern.
\<close>

theorem getitem_padded_key:
  assumes "base_data_types_reverse k = Some v"
    and "list_all is_space w1" and "list_all is_space w2" and "w1 @ w2 \<noteq> []"
  shows "getitem (w1 @ k @ w2) = Inl KeyError \<and> getitem k = Inr (FieldName v)"
proof -
  let ?p = "w1 @ k @ w2"
  note shape = table_key_shape[OF assms(1)]
  have low: "lower ?p = ?p"
    using assms by (simp add: lower_append lower_spaces table_key_lower)
  have nokey: "base_data_types_reverse ?p = None"
  proof (cases "base_data_types_reverse ?p")
    case (Some v')
    note shape' = table_key_shape[OF Some]
    show ?thesis
    proof (cases "w1 = []")
      case False
      then have "is_space (hd ?p)" using assms(2) by (cases w1) auto
      with shape' show ?thesis by blast
    next
      case True
      with assms(4) have "w2 \<noteq> []" by simp
      then have "is_space (last ?p)" using assms(3) by (simp add: list_all_iff)
      with shape' show ?thesis by blast
    qed
  qed simp
  have "CHR ''('' \<notin> set ?p"
    using shape assms(2,3) by (auto simp: list_all_iff)
  then have nomatch: "search_char_pattern ?p = None"
    using search_sound pattern_has_paren by (cases "search_char_pattern ?p") blast+
  have "getitem ?p = Inl KeyError"
    unfolding getitem_def Let_def low by (simp add: nokey nomatch)
  moreover have "getitem k = Inr (FieldName v)"
    unfolding getitem_def Let_def using assms(1) by (simp add: table_key_lower)
  ultimately show ?thesis by simp
qed

theorem getitem_padded_key_witness:
  "base_data_types_reverse ''integer'' = Some ''IntegerField''
     \<and> list_all is_space '' ''
     \<and> getitem '' integer '' = Inl KeyError
     \<and> getitem ''integer'' = Inr (FieldName ''IntegerField'')"
proof -
  have h1: "base_data_types_reverse ''integer'' = Some ''IntegerField''"
    by (simp add: base_data_types_reverse_def)
  have h2: "list_all is_space '' ''" by (simp add: is_space_def)
  have h3: "'' '' @ '' '' \<noteq> []" by simp
  show ?thesis using h1 h2 getitem_padded_key[OF h1 h2 h2 h3] by simp
qed

subsection \<open>Rows of the cursor\<close>

lemma comprehension_map:
  assumes "\<And>x. x \<in> set xs \<Longrightarrow> f (g x) = Inr (h x)"
  shows "comprehension f (map g xs) = Inr (map h xs)"
  using assms by (induction xs) auto

lemma fetch_execute:
  "fetchall (execute st c) =
     (run (cur_db c) st, c\<lparr>cur_executed := cur_executed c @ [st], cur_rows := []\<rparr>)"
  by (simp add: fetchall_def execute_def)

lemma get_table_list_result:
  "get_table_list c =
     (Inr (map PyStr (sort (map snd
        (filter (\<lambda>(ty, n). ty = ''table'' \<and> \<not> n = ''sqlite_sequence'') (sqlite_master (cur_db c)))))),
      c\<lparr>cur_executed := cur_executed c @ [SelectTables], cur_rows := []\<rparr>)"
  unfolding get_table_list_def fetch_execute
  by (simp add: comprehension_map item_def)

lemma table_info_result:
  "table_info q c t =
     (Inr (map (\<lambda>(cid, n, ty, notnull, dflt, pk).
                  \<lparr>info_name = PyStr n, info_type = PyStr ty,
                   info_null_ok = (notnull = 0), info_pk = PyInt pk\<rparr>)
             (pragma_table_info (cur_db c) (q t))),
      c\<lparr>cur_executed := cur_executed c @ [PragmaTableInfo (q t)], cur_rows := []\<rparr>)"
  unfolding table_info_def fetch_execute
  by (simp add: comprehension_map item_def and_then_def split_beta)

lemma get_table_description_result:
  "fst (get_table_description q c t) =
     Inr (map (\<lambda>(cid, n, ty, notnull, dflt, pk).
                 [PyStr n, PyStr ty, PyNone, PyNone, PyNone, PyNone, PyBool (notnull = 0)])
            (pragma_table_info (cur_db c) (q t)))"
  unfolding get_table_description_def table_info_result
  by (simp add: split_beta)

subsection \<open>\<open>get_indexes\<close>\<close>

lemma covered_Nil [simp]: "covered_columns d q [] = []"
  by (simp add: covered_columns_def)

lemma covered_Cons:
  "covered_columns d q ((seq, ix, u) # idx) =
     (if u = 0 then []
      else (case pragma_index_info d (q ix) of [(seqno, cid, n)] \<Rightarrow> [n] | _ \<Rightarrow> []))
     @ covered_columns d q idx"
  by (simp add: covered_columns_def)

lemma not_single: "length xs \<noteq> 1 \<Longrightarrow> (case xs of [(seqno, cid, n)] \<Rightarrow> [n] | _ \<Rightarrow> []) = ([] :: string list)"
  by (cases xs; cases "tl xs") auto

lemma mark_unique_empty [simp]: "mark_unique {} m = m"
  by (rule ext) (simp add: mark_unique_def option.map_ident)

lemma mark_unique_step:
  assumes "m k = Some e"
  shows "mark_unique U (m(k \<mapsto> e\<lparr>unique := True\<rparr>)) = mark_unique (insert k U) m"
  using assms by (auto simp: mark_unique_def fun_eq_iff)

lemma unique_loop_result:
  assumes "cur_db c = d"
  shows "fst (unique_loop q (map (\<lambda>(seq, ix, u). (PyStr ix, PyInt u)) idx) m c) =
           (if \<forall>n \<in> set (covered_columns d q idx). PyStr n \<in> dom m
            then Inr (mark_unique (PyStr ` set (covered_columns d q idx)) m)
            else Inl KeyError)"
  using assms
proof (induction idx arbitrary: m c)
  case Nil
  then show ?case by simp
next
  case (Cons row idx)
  obtain seq ix u where row: "row = (seq, ix, u)" by (cases row)
  show ?case
  proof (cases "u = 0")
    case True
    then show ?thesis
      using Cons.IH[OF Cons.prems] by (simp add: row covered_Cons)
  next
    case False
    define c' where "c' = c\<lparr>cur_executed := cur_executed c @ [PragmaIndexInfo (q ix)], cur_rows := []\<rparr>"
    have db': "cur_db c' = d" using Cons.prems by (simp add: c'_def)
    let ?info = "pragma_index_info d (q ix)"
    have fe: "fetchall (execute (PragmaIndexInfo (q ix)) c) =
        (map (\<lambda>(seqno, cid, n). [PyInt seqno, PyInt cid, PyStr n]) ?info, c')"
      using Cons.prems by (simp add: fetch_execute c'_def)
    show ?thesis
    proof (cases "length ?info = 1")
      case False
      then show ?thesis
        using \<open>u \<noteq> 0\<close> Cons.IH[OF db'] by (simp add: row fe covered_Cons not_single)
    next
      case True
      then obtain seqno cid n where info: "?info = [(seqno, cid, n)]"
        by (cases ?info; cases "tl ?info") auto
      have cov: "covered_columns d q ((seq, ix, u) # idx) = n # covered_columns d q idx"
        using \<open>u \<noteq> 0\<close> by (simp add: covered_Cons info)
      show ?thesis
      proof (cases "m (PyStr n)")
        case None
        then have "PyStr n \<notin> dom m" by auto
        then show ?thesis
          using \<open>u \<noteq> 0\<close> None by (simp add: row fe info cov item_def and_then_def)
      next
        case (Some e)
        let ?m = "m(PyStr n \<mapsto> e\<lparr>unique := True\<rparr>)"
        have dom: "dom ?m = dom m" using Some by auto
        have step: "fst (unique_loop q (map (\<lambda>(seq, ix, u). (PyStr ix, PyInt u)) ((seq, ix, u) # idx)) m c) =
            fst (unique_loop q (map (\<lambda>(seq, ix, u). (PyStr ix, PyInt u)) idx) ?m c')"
          using \<open>u \<noteq> 0\<close> Some by (simp add: row fe info item_def and_then_def)
        have "PyStr n \<in> dom m" using Some by auto
        then show ?thesis
          unfolding row step Cons.IH[OF db', of ?m] dom cov
          using mark_unique_step[of m "PyStr n" e] Some by simp
      qed
    qed
  qed
qed

lemma foldl_indexes:
  "foldl (\<lambda>m info. m(info_name info \<mapsto> \<lparr>primary_key = ne_zero (info_pk info), unique = False\<rparr>)) m0
     (map (\<lambda>(cid, n, ty, notnull, dflt, pk).
             \<lparr>info_name = PyStr n, info_type = PyStr ty, info_null_ok = (notnull = 0), info_pk = PyInt pk\<rparr>) rows)
   = (\<lambda>k. case k of
            PyStr n \<Rightarrow>
              (case map_of (rev (map (\<lambda>(cid, n, ty, notnull, dflt, pk). (n, pk)) rows)) n of
                 Some p \<Rightarrow> Some \<lparr>primary_key = (p \<noteq> 0), unique = False\<rparr>
               | None \<Rightarrow> m0 k)
          | _ \<Rightarrow> m0 k)"
proof (induction rows rule: rev_induct)
  case Nil
  show ?case by (auto simp: fun_eq_iff split: py_value.splits)
next
  case (snoc row rows)
  obtain cid n ty notnull dflt pk where row: "row = (cid, n, ty, notnull, dflt, pk)"
    by (cases row)
  show ?case
    unfolding map_append foldl_append snoc.IH
    by (auto simp: row fun_eq_iff split: py_value.splits)
qed

lemma initial_indexes_foldl:
  "foldl (\<lambda>m info. m(info_name info \<mapsto> \<lparr>primary_key = ne_zero (info_pk info), unique = False\<rparr>)) Map.empty
     (map (\<lambda>(cid, n, ty, notnull, dflt, pk).
             \<lparr>info_name = PyStr n, info_type = PyStr ty, info_null_ok = (notnull = 0), info_pk = PyInt pk\<rparr>)
        (pragma_table_info d a))
   = initial_indexes d a"
  unfolding foldl_indexes initial_indexes_def column_pk_def
  by (auto simp: fun_eq_iff split: py_value.splits option.splits)

lemma dom_initial_indexes: "dom (initial_indexes d a) = PyStr ` set (column_names d a)"
proof -
  have "dom (column_pk d a) = set (column_names d a)"
    unfolding column_pk_def column_names_def
    by (simp add: dom_map_of_conv_image_fst image_image split_beta)
  then have pk: "(\<exists>p. column_pk d a n = Some p) \<longleftrightarrow> n \<in> set (column_names d a)" for n
    by (auto simp: dom_def)
  show ?thesis
  proof (rule set_eqI)
    fix k
    show "k \<in> dom (initial_indexes d a) \<longleftrightarrow> k \<in> PyStr ` set (column_names d a)"
      using pk by (cases k) (auto simp: initial_indexes_def dom_def)
  qed
qed

lemma dom_mark_unique [simp]: "dom (mark_unique U m) = dom m"
  by (auto simp: mark_unique_def dom_def)

lemma get_indexes_result:
  "fst (get_indexes q c t) =
     (if set (single_unique_columns (cur_db c) q (q t)) \<subseteq> set (column_names (cur_db c) (q t))
      then Inr (mark_unique (PyStr ` set (single_unique_columns (cur_db c) q (q t)))
                  (initial_indexes (cur_db c) (q t)))
      else Inl KeyError)"
proof -
  let ?c1 = "c\<lparr>cur_executed := cur_executed c @ [PragmaTableInfo (q t)], cur_rows := []\<rparr>"
  let ?c2 = "?c1\<lparr>cur_executed := cur_executed ?c1 @ [PragmaIndexList (q t)], cur_rows := []\<rparr>"
  have pairs: "comprehension (\<lambda>field. and_then (item field 1) (\<lambda>i. and_then (item field 2) (\<lambda>u. Inr (i, u))))
      (run (cur_db ?c1) (PragmaIndexList (q t)))
    = Inr (map (\<lambda>(seq, ix, u). (PyStr ix, PyInt u)) (pragma_index_list (cur_db c) (q t)))"
    unfolding run.simps
    by (simp add: comprehension_map item_def and_then_def split_beta)
  have db2: "cur_db ?c2 = cur_db c" by simp
  have sub: "(\<forall>n\<in>set (covered_columns (cur_db c) q (pragma_index_list (cur_db c) (q t))).
               PyStr n \<in> dom (initial_indexes (cur_db c) (q t)))
      \<longleftrightarrow> set (covered_columns (cur_db c) q (pragma_index_list (cur_db c) (q t)))
            \<subseteq> set (column_names (cur_db c) (q t))"
    by (auto simp: dom_initial_indexes)
  have step: "get_indexes q c t =
      unique_loop q (map (\<lambda>(seq, ix, u). (PyStr ix, PyInt u)) (pragma_index_list (cur_db c) (q t)))
        (initial_indexes (cur_db c) (q t)) ?c2"
    unfolding get_indexes_def table_info_result prod.case sum.case Let_def fetch_execute pairs
      initial_indexes_foldl
    by (rule refl)
  show ?thesis
    unfolding step single_unique_columns_def unique_loop_result[OF db2] sub
    by (rule refl)
qed

text \<open>The example database, evaluated.\<close>

lemma example_facts:
  "cur_db example_cursor = example_db"
  "column_names example_db (example_quote_name ''person'') = [''id'', ''email'', ''nick'']"
  "column_names example_db (example_quote_name ''pair'') = [''a'', ''b'']"
  "pragma_index_list example_db (example_quote_name ''person'') = [(0, ''ix_email'', 1), (1, ''ix_nick'', 0)]"
  "pragma_index_list example_db (example_quote_name ''pair'') = [(0, ''ix_ab'', 1)]"
  "pragma_index_info example_db (example_quote_name ''ix_email'') = [(0, 1, ''email'')]"
  "pragma_index_info example_db (example_quote_name ''ix_nick'') = [(0, 2, ''nick'')]"
  "pragma_index_info example_db (example_quote_name ''ix_ab'') = [(0, 0, ''a''), (1, 1, ''b'')]"
  by (simp_all add: example_cursor_def example_db_def example_quote_name_def column_names_def)

lemma example_pk:
  "column_pk example_db (example_quote_name ''person'') ''id'' = Some 1"
  "column_pk example_db (example_quote_name ''person'') ''email'' = Some 0"
  "column_pk example_db (example_quote_name ''person'') ''nick'' = Some 0"
  by (simp_all add: example_db_def example_quote_name_def column_pk_def)

lemma example_unique:
  "single_unique_columns example_db example_quote_name (example_quote_name ''person'') = [''email'']"
  by (simp add: single_unique_columns_def covered_Cons example_facts)

text \<open>
  C9. The dictionary \<open>get_indexes\<close> returns has exactly the column names of the
  catalog as its keys, indexed or not. For each column, \<open>primary_key\<close> is true exactly
  when the catalog's \<open>pk\<close> of the column is not zero, and \<open>unique\<close> is true exactly
  when a unique index on that single column exists. (\<open>get_indexes_result\<close>: a
  dictionary is returned exactly when every column under such an index is a column of
  the table; otherwise \<open>indexes[name]\<close> raises \<open>KeyError\<close>.)
\<close>

theorem get_indexes_entries:
  assumes "fst (get_indexes q c t) = Inr m"
  shows "dom m = PyStr ` set (column_names (cur_db c) (q t))
     \<and> (\<forall>n e. m (PyStr n) = Some e \<longrightarrow>
           primary_key e = (\<exists>p. column_pk (cur_db c) (q t) n = Some p \<and> p \<noteq> 0)
         \<and> unique e = (n \<in> set (single_unique_columns (cur_db c) q (q t))))"
proof -
  let ?U = "PyStr ` set (single_unique_columns (cur_db c) q (q t))"
  from assms have m: "m = mark_unique ?U (initial_indexes (cur_db c) (q t))"
    unfolding get_indexes_result by (simp split: if_splits)
  have "dom m = PyStr ` set (column_names (cur_db c) (q t))"
    unfolding m by (simp add: dom_initial_indexes)
  moreover have "primary_key e = (\<exists>p. column_pk (cur_db c) (q t) n = Some p \<and> p \<noteq> 0)
         \<and> unique e = (n \<in> set (single_unique_columns (cur_db c) q (q t)))"
    if "m (PyStr n) = Some e" for n e
    using that unfolding m mark_unique_def initial_indexes_def
    by (auto split: if_splits)
  ultimately show ?thesis by blast
qed

theorem get_indexes_entries_witness:
  "\<exists>m. fst (get_indexes example_quote_name example_cursor ''person'') = Inr m
      \<and> dom m = {PyStr ''id'', PyStr ''email'', PyStr ''nick''}
      \<and> m (PyStr ''id'') = Some \<lparr>primary_key = True, unique = False\<rparr>
      \<and> m (PyStr ''email'') = Some \<lparr>primary_key = False, unique = True\<rparr>
      \<and> m (PyStr ''nick'') = Some \<lparr>primary_key = False, unique = False\<rparr>"
proof -
  obtain m where m: "fst (get_indexes example_quote_name example_cursor ''person'') = Inr m"
    unfolding get_indexes_result by (simp add: example_facts example_unique)
  note t = get_indexes_entries[OF m, unfolded example_facts example_unique]
  from t have d: "dom m = {PyStr ''id'', PyStr ''email'', PyStr ''nick''}" by simp
  then obtain e1 e2 e3 where
    e: "m (PyStr ''id'') = Some e1" "m (PyStr ''email'') = Some e2" "m (PyStr ''nick'') = Some e3"
    by (metis domD insertI1 insertI2)
  from t e have "primary_key e1 \<and> \<not> unique e1" "\<not> primary_key e2 \<and> unique e2"
    "\<not> primary_key e3 \<and> \<not> unique e3"
    by (auto simp: example_pk)
  then have "e1 = \<lparr>primary_key = True, unique = False\<rparr>" "e2 = \<lparr>primary_key = False, unique = True\<rparr>"
    "e3 = \<lparr>primary_key = False, unique = False\<rparr>"
    by (cases e1; cases e2; cases e3; simp)+
  with m d e show ?thesis by simp
qed

text \<open>The statements the call has executed, in order.\<close>

lemma get_indexes_example_statements:
  "cur_executed (snd (get_indexes example_quote_name example_cursor ''person'')) =
     [PragmaTableInfo ''[person]'', PragmaIndexList ''[person]'', PragmaIndexInfo ''[ix_email]'']"
  by code_simp

lemma covered_composite:
  assumes "\<forall>(seq, ix, u) \<in> set idx. u \<noteq> 0 \<longrightarrow> 1 < length (pragma_index_info d (q ix))"
  shows "covered_columns d q idx = []"
  using assms
proof (induction idx)
  case Nil
  show ?case by simp
next
  case (Cons row idx)
  obtain seq ix u where row: "row = (seq, ix, u)" by (cases row)
  from Cons.prems have "u \<noteq> 0 \<longrightarrow> length (pragma_index_info d (q ix)) \<noteq> 1"
    by (auto simp: row)
  with Cons show ?case by (auto simp: row covered_Cons not_single)
qed

text \<open>
  C6. When every unique index of a table covers more than one column, \<open>get_indexes\<close>
  returns a dictionary over the columns of the table in which no entry is unique.
\<close>

theorem get_indexes_composite_unique:
  assumes "\<forall>(seq, ix, u) \<in> set (pragma_index_list (cur_db c) (q t)).
             u \<noteq> 0 \<longrightarrow> 1 < length (pragma_index_info (cur_db c) (q ix))"
  shows "\<exists>m. fst (get_indexes q c t) = Inr m
           \<and> dom m = PyStr ` set (column_names (cur_db c) (q t))
           \<and> (\<forall>e \<in> ran m. \<not> unique e)"
proof -
  have none: "single_unique_columns (cur_db c) q (q t) = []"
    unfolding single_unique_columns_def using assms by (rule covered_composite)
  have "\<not> unique e" if "initial_indexes (cur_db c) (q t) k = Some e" for k e
    using that by (cases k) (auto simp: initial_indexes_def)
  then have "\<not> unique e" if "e \<in> ran (initial_indexes (cur_db c) (q t))" for e
    using that unfolding ran_def by blast
  then show ?thesis
    unfolding get_indexes_result none by (simp add: dom_initial_indexes)
qed

theorem get_indexes_composite_unique_witness:
  "pragma_index_list example_db (example_quote_name ''pair'') = [(0, ''ix_ab'', 1)]
     \<and> length (pragma_index_info example_db (example_quote_name ''ix_ab'')) = 2
     \<and> (\<exists>m. fst (get_indexes example_quote_name example_cursor ''pair'') = Inr m
            \<and> dom m = {PyStr ''a'', PyStr ''b''}
            \<and> (\<exists>e. m (PyStr ''a'') = Some e \<and> \<not> unique e)
            \<and> (\<exists>e. m (PyStr ''b'') = Some e \<and> \<not> unique e))"
proof -
  have h: "\<forall>(seq, ix, u) \<in> set (pragma_index_list (cur_db example_cursor) (example_quote_name ''pair'')).
             u \<noteq> 0 \<longrightarrow> 1 < length (pragma_index_info (cur_db example_cursor) (example_quote_name ix))"
    by (simp add: example_facts)
  from get_indexes_composite_unique[OF h] obtain m where
    m: "fst (get_indexes example_quote_name example_cursor ''pair'') = Inr m"
    and d: "dom m = {PyStr ''a'', PyStr ''b''}"
    and u: "\<forall>e \<in> ran m. \<not> unique e"
    by (auto simp: example_facts)
  from d obtain ea eb where e: "m (PyStr ''a'') = Some ea" "m (PyStr ''b'') = Some eb"
    by (metis domD insertI1 insertI2)
  then have "\<not> unique ea" "\<not> unique eb" using u by (auto simp: ran_def)
  with m d e show ?thesis by (auto simp: example_facts)
qed

lemma covered_filter:
  "covered_columns d q idx =
     covered_columns d q
       (filter (\<lambda>(seq, ix, u). u \<noteq> 0 \<and> length (pragma_index_info d (q ix)) = 1) idx)"
proof (induction idx)
  case Nil
  show ?case by simp
next
  case (Cons row idx)
  obtain seq ix u where row: "row = (seq, ix, u)" by (cases row)
  show ?case
    using Cons by (auto simp: row covered_Cons not_single)
qed

text \<open>
  C7. When exactly one unique index of a table covers a single column, and that column
  \<open>col\<close> is a column of the table, \<open>get_indexes\<close> returns a dictionary over the
  columns of the table in which the entry of \<open>col\<close> is unique and no other entry is.
  Indexes on several columns and indexes that are not unique change nothing.
\<close>

theorem get_indexes_single_unique:
  assumes "filter (\<lambda>(seq, ix, u). u \<noteq> 0 \<and> length (pragma_index_info (cur_db c) (q ix)) = 1)
             (pragma_index_list (cur_db c) (q t)) = [(seq0, ix0, u0)]"
    and "pragma_index_info (cur_db c) (q ix0) = [(seqno, cid, col)]"
    and "col \<in> set (column_names (cur_db c) (q t))"
  shows "\<exists>m. fst (get_indexes q c t) = Inr m
           \<and> dom m = PyStr ` set (column_names (cur_db c) (q t))
           \<and> (\<forall>n e. m (PyStr n) = Some e \<longrightarrow> unique e = (n = col))"
proof -
  have "(seq0, ix0, u0) \<in> set (filter (\<lambda>(seq, ix, u). u \<noteq> 0 \<and> length (pragma_index_info (cur_db c) (q ix)) = 1)
             (pragma_index_list (cur_db c) (q t)))"
    unfolding assms(1) by simp
  then have "u0 \<noteq> 0" by simp
  then have one: "single_unique_columns (cur_db c) q (q t) = [col]"
    unfolding single_unique_columns_def
    by (subst covered_filter, subst assms(1)) (simp add: assms(2) covered_Cons)
  have "unique e = (n = col)"
    if "mark_unique {PyStr col} (initial_indexes (cur_db c) (q t)) (PyStr n) = Some e" for n e
    using that unfolding mark_unique_def initial_indexes_def
    by (auto split: if_splits)
  then show ?thesis
    unfolding get_indexes_result one using assms(3) by (simp add: dom_initial_indexes)
qed

theorem get_indexes_single_unique_witness:
  "filter (\<lambda>(seq, ix, u). u \<noteq> 0 \<and> length (pragma_index_info example_db (example_quote_name ix)) = 1)
      (pragma_index_list example_db (example_quote_name ''person'')) = [(0, ''ix_email'', 1)]
     \<and> pragma_index_info example_db (example_quote_name ''ix_email'') = [(0, 1, ''email'')]
     \<and> (\<exists>m. fst (get_indexes example_quote_name example_cursor ''person'') = Inr m
            \<and> dom m = {PyStr ''id'', PyStr ''email'', PyStr ''nick''}
            \<and> (\<exists>e. m (PyStr ''id'') = Some e \<and> \<not> unique e)
            \<and> (\<exists>e. m (PyStr ''email'') = Some e \<and> unique e)
            \<and> (\<exists>e. m (PyStr ''nick'') = Some e \<and> \<not> unique e))"
proof -
  have h1: "filter (\<lambda>(seq, ix, u). u \<noteq> 0 \<and> length (pragma_index_info (cur_db example_cursor) (example_quote_name ix)) = 1)
      (pragma_index_list (cur_db example_cursor) (example_quote_name ''person'')) = [(0, ''ix_email'', 1)]"
    by (simp add: example_facts)
  have h2: "pragma_index_info (cur_db example_cursor) (example_quote_name ''ix_email'') = [(0, 1, ''email'')]"
    by (simp add: example_facts)
  have h3: "''email'' \<in> set (column_names (cur_db example_cursor) (example_quote_name ''person''))"
    by (simp add: example_facts)
  from get_indexes_single_unique[OF h1 h2 h3] obtain m where
    m: "fst (get_indexes example_quote_name example_cursor ''person'') = Inr m"
    and d: "dom m = {PyStr ''id'', PyStr ''email'', PyStr ''nick''}"
    and u: "\<forall>n e. m (PyStr n) = Some e \<longrightarrow> unique e = (n = ''email'')"
    by (auto simp: example_facts)
  from d obtain e1 e2 e3 where
    e: "m (PyStr ''id'') = Some e1" "m (PyStr ''email'') = Some e2" "m (PyStr ''nick'') = Some e3"
    by (metis domD insertI1 insertI2)
  then have "\<not> unique e1" "unique e2" "\<not> unique e3" using u by auto
  with m d e h1 h2 show ?thesis by (auto simp: example_facts)
qed

subsection \<open>\<open>get_table_list\<close> and \<open>get_table_description\<close>\<close>

text \<open>
  C4. \<open>get_table_list\<close> returns the names of the catalog rows of type \<open>table\<close>
  other than \<open>sqlite_sequence\<close>, each as often as the catalog lists it, in ascending
  lexicographic order.
\<close>

theorem get_table_list_sorted:
  "\<exists>ns. fst (get_table_list c) = Inr (map PyStr ns)
      \<and> sorted ns
      \<and> ''sqlite_sequence'' \<notin> set ns
      \<and> mset ns = mset (map snd (filter (\<lambda>(ty, n). ty = ''table'' \<and> n \<noteq> ''sqlite_sequence'')
                                     (sqlite_master (cur_db c))))"
proof -
  let ?ns = "sort (map snd (filter (\<lambda>(ty, n). ty = ''table'' \<and> n \<noteq> ''sqlite_sequence'')
                     (sqlite_master (cur_db c))))"
  have "fst (get_table_list c) = Inr (map PyStr ?ns)"
    unfolding get_table_list_result by simp
  moreover have "sorted ?ns" by simp
  moreover have "''sqlite_sequence'' \<notin> set ?ns" by auto
  moreover have "mset ?ns = mset (map snd (filter (\<lambda>(ty, n). ty = ''table'' \<and> n \<noteq> ''sqlite_sequence'')
                                     (sqlite_master (cur_db c))))"
    by simp
  ultimately show ?thesis by blast
qed

lemma get_table_list_example:
  "fst (get_table_list example_cursor) = Inr [PyStr ''pair'', PyStr ''person'']"
  by code_simp

text \<open>
  C5, as amended. \<open>get_table_description\<close> returns one tuple of seven items per
  catalog column, in catalog order: the name, the type string, four times \<open>None\<close>,
  and the flag that is true when the column's \<open>notnull\<close> is zero. The positions that
  hold \<open>None\<close> are the four positions 2, 3, 4 and 5.
\<close>

theorem get_table_description_tuples:
  "\<exists>tuples. fst (get_table_description q c t) = Inr tuples
      \<and> tuples = map (\<lambda>(cid, n, ty, notnull, dflt, pk).
                        [PyStr n, PyStr ty, PyNone, PyNone, PyNone, PyNone, PyBool (notnull = 0)])
                   (pragma_table_info (cur_db c) (q t))
      \<and> list_all (\<lambda>tu. length tu = 7 \<and> none_positions tu = [2, 3, 4, 5]) tuples"
proof -
  have "none_positions [PyStr n, PyStr ty, PyNone, PyNone, PyNone, PyNone, PyBool b] = [2, 3, 4, 5]"
    for n ty b
    by (simp add: none_positions_def)
  then show ?thesis
    unfolding get_table_description_result
    by (simp add: list_all_iff split_beta)
qed

text \<open>
  C5, as stated, asks for exactly three positions holding \<open>None\<close>. The description of
  the example table \<open>pair\<close> has four in each tuple.
\<close>

theorem get_table_description_three_none_counterexample:
  "fst (get_table_description example_quote_name example_cursor ''pair'') =
     Inr [[PyStr ''a'', PyStr ''int'', PyNone, PyNone, PyNone, PyNone, PyBool False],
          [PyStr ''b'', PyStr ''int'', PyNone, PyNone, PyNone, PyNone, PyBool False]]
   \<and> none_positions [PyStr ''a'', PyStr ''int'', PyNone, PyNone, PyNone, PyNone, PyBool False]
       = [2, 3, 4, 5]
   \<and> length (none_positions [PyStr ''a'', PyStr ''int'', PyNone, PyNone, PyNone, PyNone, PyBool False])
       \<noteq> 3"
  by (simp add: get_table_description_result example_cursor_def example_db_def
      example_quote_name_def none_positions_def)

subsection \<open>\<open>get_relations\<close>\<close>

text \<open>
  C8. For every table name and every cursor, \<open>get_relations\<close> raises
  \<open>NotImplementedError\<close>; the cursor it leaves is the cursor it was given, so no
  statement has been executed and no row consumed.
\<close>

theorem get_relations_not_implemented:
  "get_relations cursor table_name = (Inl NotImplementedError, cursor)"
  by (simp add: get_relations_def)

end
